theory Spec2Isabelle
  imports Main "HOL-Library.Word"
begin

section \<open>Trusted-board-boot certificate extensions (cert_create, ext.c)\<close>

text \<open>
  The file \<^verbatim>\<open>tools/cert_create/src/ext.c\<close> registers the custom X.509 extensions
  of the trusted boot chain with the certificate toolkit and builds extension
  records holding a hash, a non-volatile counter or a public key.

  Every function of ext.c calls into the toolkit (OpenSSL), whose code is not
  part of the repository.  The registration functions are taken as parameters
  (a record of operations over an arbitrary toolkit state), so that what is
  proved about \<^verbatim>\<open>ext_init\<close> holds whatever the toolkit answers.  The DER
  encoders are written out after X.690, since the properties of the constructors
  are about the bytes they produce.
\<close>

subsection \<open>Results of C functions\<close>

text \<open>
  A C call either returns a value or leaves the behaviour undefined (a read
  past the end of an array or of a buffer).  A pointer result is an option:
  \<open>None\<close> is \<^verbatim>\<open>NULL\<close>.
\<close>

datatype 'a outcome = Returns 'a | Undefined

type_synonym byte = "8 word"

subsection \<open>The data of ext.h and of the toolkit\<close>

text \<open>
  The print/parse method table of one extension.  ext.c zeroes it with
  \<^verbatim>\<open>memset\<close> and then sets four fields; the function pointers and the item
  references it stores are the toolkit's built-in ones, named here.
\<close>

datatype ASN1_ITEM = ASN1_INTEGER_it | ASN1_OCTET_STRING_it
datatype X509V3_EXT_I2S = i2s_ASN1_INTEGER | i2s_ASN1_OCTET_STRING
datatype X509V3_EXT_S2I = s2i_ASN1_INTEGER | s2i_ASN1_OCTET_STRING

record X509V3_EXT_METHOD =
  ext_nid :: int
  it :: "ASN1_ITEM option"
  i2s :: "X509V3_EXT_I2S option"
  s2i :: "X509V3_EXT_S2I option"

text \<open>
  One entry of the extension table (\<^verbatim>\<open>ext_t\<close>), with the fields ext.c reads
  and writes.  \<open>oid = None\<close> is the null pointer that ends the table;
  \<open>alias = 0\<close> means no alias.
\<close>

record ext_t =
  oid :: "string option"
  sn :: string
  ln :: string
  type :: int
  "alias" :: int
  "method" :: X509V3_EXT_METHOD

definition V_ASN1_INTEGER :: int where
  "V_ASN1_INTEGER = 2"

definition V_ASN1_OCTET_STRING :: int where
  "V_ASN1_OCTET_STRING = 4"

text \<open>
  Modelled from the spec: the toolkit operations that ext.c consumes (section 6:
  object-identifier interning, \<open>register_alias\<close>, \<open>register_methods\<close> with its
  success or failure, \<open>public_key_to_der\<close> or failure, and the lookup behind
  \<open>make_extension\<close>).  Their code is the toolkit's, so they are parameters:
  \<open>'s\<close> is the toolkit's process-wide state, \<open>'o\<close> its object identifiers and
  \<open>'k\<close> its key handles.  The three registration operations return their C
  result together with the new state; the other two only read.
\<close>

record ('s, 'o, 'k) toolkit =
  OBJ_create :: "string \<Rightarrow> string \<Rightarrow> string \<Rightarrow> 's \<Rightarrow> int \<times> 's"
  X509V3_EXT_add_alias :: "int \<Rightarrow> int \<Rightarrow> 's \<Rightarrow> int \<times> 's"
  X509V3_EXT_add :: "X509V3_EXT_METHOD \<Rightarrow> 's \<Rightarrow> int \<times> 's"
  OBJ_nid2obj :: "'s \<Rightarrow> int \<Rightarrow> 'o option"
  i2d_PUBKEY :: "'k \<Rightarrow> byte list option"

subsection \<open>ext\_init\<close>

text \<open>The method table after \<^verbatim>\<open>memset(m, 0x0, sizeof(X509V3_EXT_METHOD))\<close>.\<close>

definition memset_method :: X509V3_EXT_METHOD where
  "memset_method = \<lparr>ext_nid = 0, it = None, i2s = None, s2i = None\<rparr>"

text \<open>
  The \<^verbatim>\<open>switch (ext->type)\<close> of ext\_init: the method table for the two
  supported types, \<open>None\<close> for the \<^verbatim>\<open>default: continue\<close> branch.  The
  assignment \<^verbatim>\<open>m->ext_nid = nid\<close> after the switch is part of the result.
\<close>

definition switch_type :: "int \<Rightarrow> int \<Rightarrow> X509V3_EXT_METHOD option" where
  "switch_type t nid =
     (if t = V_ASN1_INTEGER then
        Some (memset_method\<lparr>it := Some ASN1_INTEGER_it, i2s := Some i2s_ASN1_INTEGER,
                s2i := Some s2i_ASN1_INTEGER, ext_nid := nid\<rparr>)
      else if t = V_ASN1_OCTET_STRING then
        Some (memset_method\<lparr>it := Some ASN1_OCTET_STRING_it, i2s := Some i2s_ASN1_OCTET_STRING,
                s2i := Some s2i_ASN1_OCTET_STRING, ext_nid := nid\<rparr>)
      else None)"

text \<open>
  The loop goes on with the next entry; the entry just handled keeps its place
  in the table.
\<close>

definition next_entry ::
  "ext_t \<Rightarrow> int outcome \<times> ext_t list \<times> 's \<Rightarrow> int outcome \<times> ext_t list \<times> 's" where
  "next_entry ext r = (case r of (ret, rest, s) \<Rightarrow> (ret, ext # rest, s))"

text \<open>
  \<^verbatim>\<open>ext_init\<close>: the table is the list of its entries from index 0, and the
  loop \<^verbatim>\<open>while ((ext = &tbb_ext[i++]) && ext->oid)\<close> is the recursion on it.
  The result is the returned integer, the table as the call leaves it (the
  \<^verbatim>\<open>method\<close> field of an entry without alias is overwritten) and the
  toolkit's state.  A table without a terminating entry is read past its end.
\<close>

fun ext_init ::
  "('s, 'o, 'k) toolkit \<Rightarrow> ext_t list \<Rightarrow> 's \<Rightarrow> int outcome \<times> ext_t list \<times> 's" where
  "ext_init tk [] s = (Undefined, [], s)"
| "ext_init tk (ext # rest) s =
     (case oid ext of
        None \<Rightarrow> (Returns 0, ext # rest, s)
      | Some o_str \<Rightarrow>
          (case OBJ_create tk o_str (sn ext) (ln ext) s of
             (nid, s1) \<Rightarrow>
               if alias ext \<noteq> 0 then
                 (case X509V3_EXT_add_alias tk nid (alias ext) s1 of
                    (_, s2) \<Rightarrow> next_entry ext (ext_init tk rest s2))
               else
                 (case switch_type (type ext) nid of
                    None \<Rightarrow>
                      next_entry (ext\<lparr>method := memset_method\<rparr>) (ext_init tk rest s1)
                  | Some m \<Rightarrow>
                      (case X509V3_EXT_add tk m s1 of
                         (ret, s2) \<Rightarrow>
                           if ret = 0 then (Returns 1, ext\<lparr>method := m\<rparr> # rest, s2)
                           else next_entry (ext\<lparr>method := m\<rparr>) (ext_init tk rest s2)))))"

subsection \<open>Registration in the words of the spec\<close>

text \<open>
  What the spec (section 4.1) asks for one definition, to compare
  \<^verbatim>\<open>ext_init\<close> with: intern the identifier and the two names, obtaining
  \<open>numeric_id\<close>; with an alias, register the alias (its outcome plays no
  part); otherwise attach the integer or the octet-string methods, and skip
  any other kind.  The result says whether the definition went through (only a
  refused attachment does not), and gives the definition and the toolkit's
  state afterwards.
\<close>

definition integer_methods :: "int \<Rightarrow> X509V3_EXT_METHOD" where
  "integer_methods numeric_id =
     \<lparr>ext_nid = numeric_id, it = Some ASN1_INTEGER_it,
      i2s = Some i2s_ASN1_INTEGER, s2i = Some s2i_ASN1_INTEGER\<rparr>"

definition octet_string_methods :: "int \<Rightarrow> X509V3_EXT_METHOD" where
  "octet_string_methods numeric_id =
     \<lparr>ext_nid = numeric_id, it = Some ASN1_OCTET_STRING_it,
      i2s = Some i2s_ASN1_OCTET_STRING, s2i = Some s2i_ASN1_OCTET_STRING\<rparr>"

definition attach_methods ::
  "('s, 'o, 'k) toolkit \<Rightarrow> ext_t \<Rightarrow> X509V3_EXT_METHOD \<Rightarrow> 's \<Rightarrow> bool \<times> ext_t \<times> 's" where
  "attach_methods tk d m s =
     (fst (X509V3_EXT_add tk m s) \<noteq> 0, d\<lparr>method := m\<rparr>, snd (X509V3_EXT_add tk m s))"

definition register_definition ::
  "('s, 'o, 'k) toolkit \<Rightarrow> ext_t \<Rightarrow> 's \<Rightarrow> bool \<times> ext_t \<times> 's" where
  "register_definition tk d s =
     (case oid d of
        None \<Rightarrow> (True, d, s)
      | Some o_str \<Rightarrow>
          (case OBJ_create tk o_str (sn d) (ln d) s of
             (numeric_id, s1) \<Rightarrow>
               if alias d \<noteq> 0 then
                 (True, d, snd (X509V3_EXT_add_alias tk numeric_id (alias d) s1))
               else if type d = V_ASN1_INTEGER then
                 attach_methods tk d (integer_methods numeric_id) s1
               else if type d = V_ASN1_OCTET_STRING then
                 attach_methods tk d (octet_string_methods numeric_id) s1
               else (True, d\<lparr>method := memset_method\<rparr>, s1)))"

text \<open>
  The spec's \<open>initialize\<close> on the definitions before the terminator: each
  one in order; the first that fails ends it, with the later ones untouched
  and nothing undone.
\<close>

fun register_definitions ::
  "('s, 'o, 'k) toolkit \<Rightarrow> ext_t list \<Rightarrow> 's \<Rightarrow> bool \<times> ext_t list \<times> 's" where
  "register_definitions tk [] s = (True, [], s)"
| "register_definitions tk (d # ds) s =
     (case register_definition tk d s of
        (ok, d', s1) \<Rightarrow>
          if ok then
            (case register_definitions tk ds s1 of (ok', ds', s') \<Rightarrow> (ok', d' # ds', s'))
          else (False, d' # ds, s1))"

subsection \<open>DER encoding in the toolkit\<close>

text \<open>
  Modelled from the spec: the toolkit's DER encoders (section 6:
  \<open>octet_string_encode\<close>, \<open>integer_encode\<close>), which ext.c calls as
  \<^verbatim>\<open>i2d_ASN1_OCTET_STRING\<close> and \<^verbatim>\<open>i2d_ASN1_INTEGER\<close>, and the matching decoders
  that read the values back.  Their code is the toolkit's; they are written here
  after the encoding rules they implement (X.690): an identifier octet, the
  definite length in its shortest form, the content octets.
\<close>

text \<open>
  Modelled from the spec: the octets of a length (section 4.2: the encoding is
  self-delimiting via an explicit length), most significant first, none for
  zero; \<open>be_nat\<close> reads them back.  The toolkit's code for them is not in the
  repository.
\<close>

fun be_bytes :: "nat \<Rightarrow> byte list" where
  "be_bytes n = (if n = 0 then [] else be_bytes (n div 256) @ [of_nat (n mod 256)])"

declare be_bytes.simps [simp del]

definition be_nat :: "byte list \<Rightarrow> nat" where
  "be_nat bs = foldl (\<lambda>acc b. acc * 256 + unat b) 0 bs"

text \<open>
  Modelled from the spec: the length octets of the toolkit's encoders (section
  4.2, explicit length), in the shortest form: one octet up to 127, otherwise
  the count of the following octets with the top bit set, then the length
  itself.  \<open>ASN1_get_length\<close> reads them back.
\<close>

definition ASN1_put_length :: "nat \<Rightarrow> byte list" where
  "ASN1_put_length n =
     (if n \<le> 127 then [of_nat n] else of_nat (128 + length (be_bytes n)) # be_bytes n)"

definition ASN1_get_length :: "byte list \<Rightarrow> (nat \<times> byte list) option" where
  "ASN1_get_length bs =
     (case bs of
        [] \<Rightarrow> None
      | b # rest \<Rightarrow>
          if b < 128 then Some (unat b, rest)
          else
            let k = unat b - 128 in
            if k = 0 \<or> length rest < k then None
            else Some (be_nat (take k rest), drop k rest))"

text \<open>The largest C \<^verbatim>\<open>int\<close>.\<close>

definition INT_MAX :: int where
  "INT_MAX = 2147483647"

text \<open>
  Modelled from the spec: \<^verbatim>\<open>ASN1_object_size\<close>, the size the toolkit's
  encoders (section 6) compute for an object of \<open>n\<close> content octets before
  they write it.  The toolkit counts in \<^verbatim>\<open>int\<close>: \<open>ret\<close> is the identifier
  octet and the length octets, and the result is -1 once
  \<open>ret \<ge> INT_MAX - n\<close>, that is, for every encoding of \<open>INT_MAX\<close> bytes and
  more.
\<close>

definition ASN1_object_size :: "nat \<Rightarrow> int" where
  "ASN1_object_size n =
     (let ret = 1 + int (length (ASN1_put_length n)) in
      if INT_MAX - int n \<le> ret then - 1 else ret + int n)"

text \<open>
  Modelled from the spec: encoding an object under an identifier octet, the
  common part of the toolkit's \<open>octet_string_encode\<close> and
  \<open>integer_encode\<close> (section 6).  ext.c calls the encoder twice, once with
  no buffer for the size \<^verbatim>\<open>sz\<close> and once for the bytes \<^verbatim>\<open>p\<close>; the result
  is the pair.  When the size is -1 the second call writes nothing and \<^verbatim>\<open>p\<close>
  stays \<^verbatim>\<open>NULL\<close> (\<open>None\<close>).
\<close>

definition i2d :: "byte \<Rightarrow> byte list \<Rightarrow> int \<times> byte list option" where
  "i2d tag content =
     (if ASN1_object_size (length content) = - 1 then (- 1, None)
      else (ASN1_object_size (length content),
            Some (tag # ASN1_put_length (length content) @ content)))"

text \<open>
  Modelled from the spec: decoding one object (section 8: the output,
  DER-decoded, yields the payload back), the toolkit's decoder, whose code is
  not in the repository.  The result is the content octets and the bytes that
  follow them.
\<close>

definition d2i :: "byte \<Rightarrow> byte list \<Rightarrow> (byte list \<times> byte list) option" where
  "d2i tag bs =
     (case bs of
        [] \<Rightarrow> None
      | t # rest \<Rightarrow>
          if t \<noteq> tag then None
          else
            (case ASN1_get_length rest of
               None \<Rightarrow> None
             | Some (n, body) \<Rightarrow>
                 if length body < n then None else Some (take n body, drop n body)))"

text \<open>The identifier octets of the two universal types.\<close>

definition V_ASN1_OCTET_STRING_tag :: byte where
  "V_ASN1_OCTET_STRING_tag = 4"

definition V_ASN1_INTEGER_tag :: byte where
  "V_ASN1_INTEGER_tag = 2"

text \<open>
  Modelled from the spec: \<^verbatim>\<open>i2d_ASN1_OCTET_STRING\<close>, the toolkit's
  \<open>octet_string_encode\<close> (section 6), and the decoder that reads an octet
  string back.
\<close>

definition i2d_ASN1_OCTET_STRING :: "byte list \<Rightarrow> int \<times> byte list option" where
  "i2d_ASN1_OCTET_STRING str = i2d V_ASN1_OCTET_STRING_tag str"

definition d2i_ASN1_OCTET_STRING :: "byte list \<Rightarrow> (byte list \<times> byte list) option" where
  "d2i_ASN1_OCTET_STRING bs = d2i V_ASN1_OCTET_STRING_tag bs"

text \<open>
  Modelled from the spec: the content octets of the toolkit's
  \<open>integer_encode\<close> (section 4.2: the minimal two's-complement DER integer
  encoding): two's complement, most significant octet first, in the fewest
  octets.
\<close>

function twos_complement :: "int \<Rightarrow> byte list" where
  "twos_complement v =
     (if - 128 \<le> v \<and> v < 128 then [of_int v]
      else twos_complement (v div 256) @ [of_int (v mod 256)])"
  by pat_completeness auto
termination
  by (relation "measure (\<lambda>v. nat \<bar>v\<bar>)") auto

declare twos_complement.simps [simp del]

text \<open>
  Modelled from the spec: the number that content octets stand for when they
  are decoded as an integer (section 8); the first octet carries the sign.
\<close>

definition twos_value :: "byte list \<Rightarrow> int" where
  "twos_value bs =
     (case bs of [] \<Rightarrow> 0 | b # rest \<Rightarrow> foldl (\<lambda>acc x. acc * 256 + uint x) (sint b) rest)"

text \<open>
  What the encoding rules ask of a positive number, for comparison with
  \<open>twos_complement\<close>: the octets of the magnitude, with one zero octet in
  front exactly when the top bit of the first octet is set (it would read as a
  sign otherwise).
\<close>

definition pad_sign :: "byte list \<Rightarrow> byte list" where
  "pad_sign m = (if 128 \<le> hd m then 0 # m else m)"

text \<open>
  Modelled from the spec: \<^verbatim>\<open>i2d_ASN1_INTEGER\<close>, the toolkit's
  \<open>integer_encode\<close> (section 6), and the decoder that reads an integer back.
\<close>

definition i2d_ASN1_INTEGER :: "int \<Rightarrow> int \<times> byte list option" where
  "i2d_ASN1_INTEGER v = i2d V_ASN1_INTEGER_tag (twos_complement v)"

definition d2i_ASN1_INTEGER :: "byte list \<Rightarrow> (int \<times> byte list) option" where
  "d2i_ASN1_INTEGER bs =
     (case d2i V_ASN1_INTEGER_tag bs of
        None \<Rightarrow> None
      | Some (content, rest) \<Rightarrow> if content = [] then None else Some (twos_value content, rest))"

text \<open>
  Modelled from the spec: \<^verbatim>\<open>ASN1_OCTET_STRING_set(str, data, len)\<close>, the
  octet-string constructor of the toolkit (section 4.2: the payload bytes are
  copied into the encoded form).  \<open>str\<close> is the content the string has
  before the call, \<open>data\<close> the initialised content of the buffer, or
  \<open>None\<close> for a null pointer.  The result is the returned \<^verbatim>\<open>int\<close> (1 for
  success, 0 for failure, which leaves the string as it was) and the content
  after the call.  Its \<open>len\<close> is a C \<^verbatim>\<open>int\<close>: for a negative one the toolkit
  measures the buffer as a C string, up to its first zero byte, and fails on a
  null pointer; a length above \<open>INT_MAX - 1\<close> is refused.  Copying more than
  the buffer holds reads past it, and a positive length without a buffer
  leaves the content uninitialised.
\<close>

definition ASN1_OCTET_STRING_set ::
  "byte list \<Rightarrow> byte list option \<Rightarrow> int \<Rightarrow> (int \<times> byte list) outcome" where
  "ASN1_OCTET_STRING_set str data len =
     (case data of
        None \<Rightarrow>
          if len < 0 then Returns (0, str)
          else if INT_MAX - 1 < len then Returns (0, str)
          else if len = 0 then Returns (1, [])
          else Undefined
      | Some bytes \<Rightarrow>
          if len < 0 \<and> 0 \<notin> set bytes then Undefined
          else
            let n = (if len < 0 then length (takeWhile (\<lambda>b. b \<noteq> 0) bytes) else nat len) in
            if INT_MAX - 1 < int n then Returns (0, str)
            else if n \<le> length bytes then Returns (1, take n bytes)
            else Undefined)"

text \<open>
  Modelled from the spec: \<^verbatim>\<open>ASN1_INTEGER_set(a, v)\<close>, the toolkit's integer
  constructor (section 4.2: the value is encoded as an ASN.1 integer); it
  stores the \<^verbatim>\<open>long\<close> it is given.
\<close>

definition ASN1_INTEGER_set :: "int \<Rightarrow> int" where
  "ASN1_INTEGER_set v = v"

subsection \<open>The extension record and its constructors\<close>

text \<open>
  The extension record the toolkit builds: the object of the identifier, the
  criticality flag and the encoded value.
\<close>

record 'o X509_EXTENSION =
  object :: 'o
  critical :: bool
  "value" :: "byte list"

text \<open>
  Modelled from the spec: \<^verbatim>\<open>X509_EXTENSION_create_by_NID\<close>, the toolkit's
  extension-record constructor (section 6: \<open>make_extension\<close>).  It looks the
  identifier up in the object table and returns \<^verbatim>\<open>NULL\<close> for one it does not
  know; the record copies the octet string.
\<close>

definition X509_EXTENSION_create_by_NID ::
  "('s, 'o, 'k) toolkit \<Rightarrow> 's \<Rightarrow> int \<Rightarrow> int \<Rightarrow> byte list \<Rightarrow> 'o X509_EXTENSION option" where
  "X509_EXTENSION_create_by_NID tk s nid crit data =
     (case OBJ_nid2obj tk s nid of
        None \<Rightarrow> None
      | Some obj \<Rightarrow> Some \<lparr>object = obj, critical = (crit \<noteq> 0), value = data\<rparr>)"

text \<open>
  \<^verbatim>\<open>ext_new\<close>: the data are wrapped in a new (empty) octet string, set to
  \<open>len\<close> bytes of \<open>data\<close>, and the record is created from it.  The value
  that \<^verbatim>\<open>ASN1_OCTET_STRING_set\<close> returns is not looked at.  Each constructor
  returns the toolkit's state next to its result.
\<close>

definition ext_new ::
  "('s, 'o, 'k) toolkit \<Rightarrow> int \<Rightarrow> int \<Rightarrow> byte list option \<Rightarrow> int \<Rightarrow> 's \<Rightarrow>
     'o X509_EXTENSION option outcome \<times> 's" where
  "ext_new tk nid crit data len s =
     (case ASN1_OCTET_STRING_set [] data len of
        Undefined \<Rightarrow> (Undefined, s)
      | Returns (_, ext_data) \<Rightarrow>
          (Returns (X509_EXTENSION_create_by_NID tk s nid crit ext_data), s))"

text \<open>
  The \<^verbatim>\<open>size_t len\<close> of \<^verbatim>\<open>ext_new_hash\<close> is passed to a parameter of type
  \<^verbatim>\<open>int\<close>: the conversion keeps the low 32 bits, read as two's complement.
  \<^verbatim>\<open>ext_new_hash\<close> looks neither at what \<^verbatim>\<open>ASN1_OCTET_STRING_set\<close> returns
  nor at the sign of \<^verbatim>\<open>sz\<close>: it passes \<^verbatim>\<open>p\<close> and \<^verbatim>\<open>sz\<close> on as they are.
\<close>

definition size_t_to_int :: "nat \<Rightarrow> int" where
  "size_t_to_int n = sint (word_of_nat n :: 32 word)"

definition ext_new_hash ::
  "('s, 'o, 'k) toolkit \<Rightarrow> int \<Rightarrow> int \<Rightarrow> byte list \<Rightarrow> nat \<Rightarrow> 's \<Rightarrow>
     'o X509_EXTENSION option outcome \<times> 's" where
  "ext_new_hash tk nid crit buf len s =
     (case ASN1_OCTET_STRING_set [] (Some buf) (size_t_to_int len) of
        Undefined \<Rightarrow> (Undefined, s)
      | Returns (_, hash) \<Rightarrow>
          (case i2d_ASN1_OCTET_STRING hash of
             (sz, p) \<Rightarrow> ext_new tk nid crit p sz s))"

text \<open>
  \<^verbatim>\<open>ext_new_nvcounter\<close>: the counter is a C \<^verbatim>\<open>int\<close>, a 32-bit word read as
  two's complement.
\<close>

definition ext_new_nvcounter ::
  "('s, 'o, 'k) toolkit \<Rightarrow> int \<Rightarrow> int \<Rightarrow> 32 word \<Rightarrow> 's \<Rightarrow>
     'o X509_EXTENSION option outcome \<times> 's" where
  "ext_new_nvcounter tk nid crit v s =
     (case i2d_ASN1_INTEGER (ASN1_INTEGER_set (sint v)) of
        (sz, p) \<Rightarrow> ext_new tk nid crit p sz s)"

text \<open>
  Modelled from the spec: the toolkit's memory buffer behind
  \<^verbatim>\<open>ext_new_key\<close> (section 4.2: the serialized key is captured through a
  bounded intermediate buffer of 4096 bytes, section 6: \<open>public_key_to_der\<close>
  or failure).  The memory BIO is the list of the bytes written to it and not
  yet read.  \<^verbatim>\<open>i2d_PUBKEY_bio\<close> appends the key's encoding and returns 1,
  or returns 0 when the toolkit cannot encode the key.
  \<^verbatim>\<open>BIO_read(mem, p, outl)\<close> moves at most \<open>outl\<close> bytes into the buffer
  and returns their number, or -1 on an empty BIO.
\<close>

definition i2d_PUBKEY_bio :: "('s, 'o, 'k) toolkit \<Rightarrow> byte list \<Rightarrow> 'k \<Rightarrow> int \<times> byte list" where
  "i2d_PUBKEY_bio tk mem k =
     (case i2d_PUBKEY tk k of
        None \<Rightarrow> (0, mem)
      | Some der \<Rightarrow> if der = [] then (0, mem) else (1, mem @ der))"

definition BIO_read :: "byte list \<Rightarrow> nat \<Rightarrow> int \<times> byte list \<times> byte list" where
  "BIO_read mem outl =
     (if mem = [] then (- 1, [], mem)
      else (int (min (length mem) outl), take outl mem, drop outl mem))"

definition ext_new_key ::
  "('s, 'o, 'k) toolkit \<Rightarrow> int \<Rightarrow> int \<Rightarrow> 'k \<Rightarrow> 's \<Rightarrow>
     'o X509_EXTENSION option outcome \<times> 's" where
  "ext_new_key tk nid crit k s =
     (case i2d_PUBKEY_bio tk [] k of
        (ret, mem) \<Rightarrow>
          if ret \<le> 0 then (Returns None, s)
          else
            (case BIO_read mem 4096 of
               (sz, p, _) \<Rightarrow> ext_new tk nid crit (Some p) sz s))"

subsection \<open>A table terminator and a toolkit to run the functions on\<close>

text \<open>The entry that ends a table: every pointer null, every number zero.\<close>

definition sentinel :: ext_t where
  "sentinel = \<lparr>oid = None, sn = [], ln = [], type = 0, alias = 0, method = memset_method\<rparr>"

text \<open>
  A small toolkit for concrete runs.  Its state is the list of the interned
  identifiers and the list of the registered method tables, which holds at
  most \<open>room\<close> entries: a registration beyond that fails, as an allocation
  failure makes the toolkit's fail.  Interning numbers the identifiers from
  1000; the empty string is no identifier and gets 0, as the toolkit's
  \<^verbatim>\<open>NID_undef\<close>.  An alias copies the method table of its target and fails when the
  target has none.  A key handle is its encoding, or nothing for a key that
  cannot be encoded.
\<close>

record tk_state =
  added_objs :: "(int \<times> string) list"
  ext_list :: "X509V3_EXT_METHOD list"

definition sample_toolkit :: "nat \<Rightarrow> (tk_state, string, byte list option) toolkit" where
  "sample_toolkit room =
     \<lparr>OBJ_create = (\<lambda>o_str sn_str ln_str s.
        if o_str = [] then (0, s)
        else
          (1000 + int (length (added_objs s)),
           s\<lparr>added_objs := added_objs s @ [(1000 + int (length (added_objs s)), o_str)]\<rparr>)),
      X509V3_EXT_add_alias = (\<lambda>nid_to nid_from s.
        (case find (\<lambda>m. ext_nid m = nid_from) (ext_list s) of
           None \<Rightarrow> (0, s)
         | Some m \<Rightarrow>
             if length (ext_list s) < room
             then (1, s\<lparr>ext_list := ext_list s @ [m\<lparr>ext_nid := nid_to\<rparr>]\<rparr>)
             else (0, s))),
      X509V3_EXT_add = (\<lambda>m s.
        if length (ext_list s) < room then (1, s\<lparr>ext_list := ext_list s @ [m]\<rparr>)
        else (0, s)),
      OBJ_nid2obj = (\<lambda>s nid. map_of (added_objs s) nid),
      i2d_PUBKEY = (\<lambda>k. k)\<rparr>"

definition empty_state :: tk_state where
  "empty_state = \<lparr>added_objs = [], ext_list = []\<rparr>"

text \<open>
  Table entries: a hash, a counter, an entry of an unsupported type, an entry
  with an alias, and an entry whose identifier is the empty string.
\<close>

definition hash_ext :: ext_t where
  "hash_ext = \<lparr>oid = Some ''1.2.3.4'', sn = ''tbbHash'', ln = ''TBB Hash'',
     type = V_ASN1_OCTET_STRING, alias = 0, method = memset_method\<rparr>"

definition counter_ext :: ext_t where
  "counter_ext = \<lparr>oid = Some ''1.2.3.5'', sn = ''tbbCtr'', ln = ''TBB Counter'',
     type = V_ASN1_INTEGER, alias = 0, method = memset_method\<rparr>"

definition other_ext :: ext_t where
  "other_ext = \<lparr>oid = Some ''1.2.3.6'', sn = ''tbbOther'', ln = ''TBB Other'',
     type = 12, alias = 0, method = memset_method\<rparr>"

definition alias_ext :: ext_t where
  "alias_ext = \<lparr>oid = Some ''1.2.3.7'', sn = ''tbbAlias'', ln = ''TBB Alias'',
     type = 0, alias = 85, method = memset_method\<rparr>"

definition empty_oid_ext :: ext_t where
  "empty_oid_ext = \<lparr>oid = Some [], sn = ''tbbEmpty'', ln = ''TBB Empty'',
     type = V_ASN1_OCTET_STRING, alias = 0, method = memset_method\<rparr>"

section \<open>Properties of ext\_init\<close>

lemma next_entry_simp [simp]: "next_entry e (r, l, s) = (r, e # l, s)"
  by (simp add: next_entry_def)

lemma ext_init_append:
  "\<forall>x\<in>set pre. oid x \<noteq> None \<Longrightarrow>
   ext_init tk (pre @ [sentinel]) s = (Returns 0, l1, s1) \<Longrightarrow>
   ext_init tk (pre @ rest) s =
     (case ext_init tk rest s1 of (r, l, s') \<Rightarrow> (r, take (length pre) l1 @ l, s'))"
proof (induction pre arbitrary: s l1)
  case Nil
  then show ?case by (auto simp: sentinel_def split: prod.splits)
next
  case (Cons e pre)
  then show ?case
    by (auto simp: next_entry_def split: option.splits prod.splits if_splits)
qed

section \<open>Properties of the DER encoders\<close>

lemma unat_byte_of_nat: "n < 256 \<Longrightarrow> unat (of_nat n :: byte) = n"
  by (simp add: unat_of_nat)

lemma be_nat_snoc: "be_nat (bs @ [b]) = be_nat bs * 256 + unat b"
  by (simp add: be_nat_def)

lemma be_nat_Nil: "be_nat [] = 0"
  by (simp add: be_nat_def)

lemma be_nat_be_bytes: "be_nat (be_bytes n) = n"
proof (induction n rule: be_bytes.induct)
  case (1 n)
  show ?case
  proof (cases "n = 0")
    case True
    then show ?thesis by (simp add: be_bytes.simps be_nat_Nil)
  next
    case False
    have "be_nat (be_bytes n) = be_nat (be_bytes (n div 256)) * 256 + n mod 256"
      using False by (subst be_bytes.simps) (simp add: be_nat_snoc unat_byte_of_nat)
    with 1 False show ?thesis by simp
  qed
qed

lemma length_be_bytes_le: "n < 256 ^ k \<Longrightarrow> length (be_bytes n) \<le> k"
proof (induction k arbitrary: n)
  case 0
  then show ?case by (simp add: be_bytes.simps)
next
  case (Suc k)
  show ?case
  proof (cases "n = 0")
    case True
    then show ?thesis by (simp add: be_bytes.simps)
  next
    case False
    have "n div 256 < 256 ^ k" using Suc.prems by (simp add: less_mult_imp_div_less mult.commute)
    from Suc.IH [OF this] False show ?thesis by (subst be_bytes.simps) simp
  qed
qed

lemma length_be_bytes_pos: "0 < n \<Longrightarrow> 0 < length (be_bytes n)"
  by (subst be_bytes.simps) simp

lemma length_put_length: "n < 2 ^ 32 \<Longrightarrow> length (ASN1_put_length n) \<le> 5"
  using length_be_bytes_le [of n 4] by (simp add: ASN1_put_length_def)

lemma get_put_length:
  assumes "n < 2 ^ 32"
  shows "ASN1_get_length (ASN1_put_length n @ rest) = Some (n, rest)"
proof (cases "n \<le> 127")
  case True
  then have "(of_nat n :: byte) < 128"
    by (simp add: word_less_nat_alt unat_byte_of_nat)
  with True show ?thesis
    by (simp add: ASN1_put_length_def ASN1_get_length_def unat_byte_of_nat)
next
  case False
  define k where "k = length (be_bytes n)"
  have k4: "k \<le> 4" unfolding k_def using assms length_be_bytes_le [of n 4] by simp
  have "0 < length (be_bytes n)" by (rule length_be_bytes_pos) (use False in simp)
  then have k0: "0 < k" by (simp add: k_def)
  have u: "unat (of_nat (128 + k) :: byte) = 128 + k"
    by (rule unat_byte_of_nat) (use k4 in simp)
  have nl: "\<not> (of_nat (128 + k) :: byte) < 128"
    unfolding word_less_nat_alt u by simp
  have ne: "be_bytes n \<noteq> []" using k0 by (simp add: k_def)
  have "ASN1_put_length n @ rest = of_nat (128 + k) # be_bytes n @ rest"
    using False by (simp add: ASN1_put_length_def k_def)
  then show ?thesis
    using nl u k0 ne by (simp add: ASN1_get_length_def Let_def k_def be_nat_be_bytes)
qed

lemma ASN1_object_size_ok:
  "ASN1_object_size n \<noteq> - 1 \<Longrightarrow>
   ASN1_object_size n = 1 + int (length (ASN1_put_length n)) + int n
   \<and> ASN1_object_size n \<le> INT_MAX - 1"
  by (auto simp: ASN1_object_size_def Let_def split: if_splits)

lemma d2i_i2d:
  assumes "i2d tag content = (sz, Some der)"
  shows "d2i tag (der @ rest) = Some (content, rest) \<and> sz = int (length der)
         \<and> der = tag # ASN1_put_length (length content) @ content
         \<and> int (length der) \<le> INT_MAX - 1"
proof -
  from assms have ok: "ASN1_object_size (length content) \<noteq> - 1"
    and der: "der = tag # ASN1_put_length (length content) @ content"
    and sz: "sz = ASN1_object_size (length content)"
    by (auto simp: i2d_def split: if_splits)
  from ASN1_object_size_ok [OF ok] der sz
  have l: "sz = int (length der)" "int (length der) \<le> INT_MAX - 1" by simp_all
  from l(2) der have "length content < 2 ^ 32" by (simp add: INT_MAX_def)
  from get_put_length [OF this] der l show ?thesis
    by (simp add: d2i_def)
qed

lemma twos_value_single: "twos_value [b] = sint b"
  by (simp add: twos_value_def)

lemma twos_value_snoc: "bs \<noteq> [] \<Longrightarrow> twos_value (bs @ [b]) = twos_value bs * 256 + uint b"
  by (cases bs) (simp_all add: twos_value_def)

lemma twos_complement_ne: "twos_complement v \<noteq> []"
  by (subst twos_complement.simps) simp

lemma sint_byte_of_int: "- 128 \<le> v \<Longrightarrow> v < 128 \<Longrightarrow> sint (of_int v :: byte) = v"
  by (simp add: sint_sbintrunc' signed_take_bit_int_eq_self)

lemma uint_byte_of_int_mod: "uint (of_int (v mod 256) :: byte) = v mod 256"
  by (simp add: uint_word_of_int)

lemma twos_value_twos_complement: "twos_value (twos_complement v) = v"
proof (induction v rule: twos_complement.induct)
  case (1 v)
  show ?case
  proof (cases "- 128 \<le> v \<and> v < 128")
    case True
    then show ?thesis
      by (subst twos_complement.simps) (simp add: twos_value_single sint_byte_of_int)
  next
    case False
    have u: "twos_complement v = twos_complement (v div 256) @ [of_int (v mod 256)]"
      using False by (subst twos_complement.simps) auto
    have "twos_value (twos_complement v) = twos_value (twos_complement (v div 256)) * 256 + v mod 256"
      unfolding u twos_value_snoc [OF twos_complement_ne] uint_byte_of_int_mod ..
    with 1 False show ?thesis by simp
  qed
qed

lemma div_256_range:
  fixes v P :: int
  shows "- (256 * P) \<le> v \<Longrightarrow> v < 256 * P \<Longrightarrow> - P \<le> v div 256 \<and> v div 256 < P"
  by arith

lemma mul_256_range:
  fixes x u P :: int
  shows "- P \<le> x \<Longrightarrow> x < P \<Longrightarrow> 0 \<le> u \<Longrightarrow> u < 256 \<Longrightarrow>
         - (256 * P) \<le> x * 256 + u \<and> x * 256 + u < 256 * P"
  by arith

lemma length_twos_complement_le:
  "0 < n \<Longrightarrow> - (2 ^ (8 * n - 1)) \<le> v \<Longrightarrow> v < 2 ^ (8 * n - 1) \<Longrightarrow>
   length (twos_complement v) \<le> n"
proof (induction n arbitrary: v)
  case 0
  then show ?case by simp
next
  case (Suc n)
  show ?case
  proof (cases "- 128 \<le> v \<and> v < 128")
    case True
    then show ?thesis by (subst twos_complement.simps) simp
  next
    case False
    then have n0: "0 < n" using Suc.prems by (cases n) auto
    have e: "(2::int) ^ (8 * Suc n - 1) = 256 * 2 ^ (8 * n - 1)"
      using n0 by (cases n) (simp_all add: power_add)
    have "- (2 ^ (8 * n - 1)) \<le> v div 256" "v div 256 < 2 ^ (8 * n - 1)"
      using Suc.prems(2,3) div_256_range [of "2 ^ (8 * n - 1)" v] unfolding e by simp_all
    from Suc.IH [OF n0 this] False show ?thesis
      by (subst twos_complement.simps) simp
  qed
qed

lemma twos_value_range:
  "bs \<noteq> [] \<Longrightarrow> - (2 ^ (8 * length bs - 1)) \<le> twos_value bs \<and> twos_value bs < 2 ^ (8 * length bs - 1)"
proof (induction bs rule: rev_induct)
  case Nil
  then show ?case by simp
next
  case (snoc b bs)
  show ?case
  proof (cases "bs = []")
    case True
    have "- 128 \<le> sint b" "sint b < 128"
      using sint_ge [of b] sint_lt [of b] by simp_all
    with True show ?thesis by (simp add: twos_value_single)
  next
    case False
    obtain k where k: "length bs = Suc k" using False by (cases bs) auto
    have e: "(2::int) ^ (8 * length (bs @ [b]) - 1) = 256 * 2 ^ (8 * length bs - 1)"
      by (simp add: k power_add)
    have ub: "0 \<le> uint b" "uint b < 256"
      using uint_lt2p [of b] by simp_all
    from snoc.IH [OF False] ub show ?thesis
      unfolding e twos_value_snoc [OF False]
      using mul_256_range [of "2 ^ (8 * length bs - 1)" "twos_value bs" "uint b"] by blast
  qed
qed

lemma twos_complement_minimal:
  "bs \<noteq> [] \<Longrightarrow> twos_value bs = v \<Longrightarrow> length (twos_complement v) \<le> length bs"
  using twos_value_range [of bs] length_twos_complement_le [of "length bs" v] by simp

section \<open>The table terminator\<close>

lemma register_definition_step:
  assumes "oid e = Some o_str"
  shows "ext_init tk (e # rest) s =
     (case register_definition tk e s of
        (ok, e', s1) \<Rightarrow>
          if ok then next_entry e' (ext_init tk rest s1) else (Returns 1, e' # rest, s1))"
  using assms
  by (auto simp: register_definition_def attach_methods_def switch_type_def
        integer_methods_def octet_string_methods_def memset_method_def
        V_ASN1_INTEGER_def V_ASN1_OCTET_STRING_def
        split: prod.splits)

text \<open>
  Claim C3, amended.  Let \<open>snt\<close> be the first entry of the table without an
  object identifier (a null \<^verbatim>\<open>oid\<close> pointer, which is what the loop
  tests).  Then ext\_init does to the entries before it, one after the other,
  what the spec's registration does to them: each is interned and registered,
  and a refused registration ends the call with 1.  The terminator and every
  entry after it are returned as they were, and the toolkit's state is the one
  the entries before the terminator left: nothing at or after it is interned
  or registered.
\<close>

theorem ext_init_stops_at_sentinel:
  assumes "\<forall>x\<in>set pre. oid x \<noteq> None" and "oid snt = None"
  shows "ext_init tk (pre @ snt # post) s =
           (case register_definitions tk pre s of
              (ok, pre', s') \<Rightarrow> (Returns (if ok then 0 else 1), pre' @ snt # post, s'))"
  using assms(1)
proof (induction pre arbitrary: s)
  case Nil
  show ?case using assms(2) by simp
next
  case (Cons e pre)
  then obtain o_str where o: "oid e = Some o_str" by auto
  from Cons.prems have rest: "\<forall>x\<in>set pre. oid x \<noteq> None" by simp
  obtain ok e' s1 where r: "register_definition tk e s = (ok, e', s1)"
    by (cases "register_definition tk e s")
  show ?case
  proof (cases ok)
    case True
    with r register_definition_step [OF o, of tk "pre @ snt # post" s] Cons.IH [OF rest, of s1]
    show ?thesis by (simp split: prod.splits)
  next
    case False
    with r register_definition_step [OF o, of tk "pre @ snt # post" s]
    show ?thesis by simp
  qed
qed

theorem ext_init_stops_at_sentinel_witness:
  "ext_init (sample_toolkit 5) [hash_ext, counter_ext, sentinel, other_ext] empty_state =
     (Returns 0,
      [hash_ext\<lparr>method := \<lparr>ext_nid = 1000, it = Some ASN1_OCTET_STRING_it,
                  i2s = Some i2s_ASN1_OCTET_STRING, s2i = Some s2i_ASN1_OCTET_STRING\<rparr>\<rparr>,
       counter_ext\<lparr>method := \<lparr>ext_nid = 1001, it = Some ASN1_INTEGER_it,
                  i2s = Some i2s_ASN1_INTEGER, s2i = Some s2i_ASN1_INTEGER\<rparr>\<rparr>,
       sentinel, other_ext],
      \<lparr>added_objs = [(1000, ''1.2.3.4''), (1001, ''1.2.3.5'')],
       ext_list = [\<lparr>ext_nid = 1000, it = Some ASN1_OCTET_STRING_it,
                  i2s = Some i2s_ASN1_OCTET_STRING, s2i = Some s2i_ASN1_OCTET_STRING\<rparr>,
                 \<lparr>ext_nid = 1001, it = Some ASN1_INTEGER_it,
                  i2s = Some i2s_ASN1_INTEGER, s2i = Some s2i_ASN1_INTEGER\<rparr>]\<rparr>)"
proof -
  have h1: "\<forall>x\<in>set [hash_ext, counter_ext]. oid x \<noteq> None"
    by (simp add: hash_ext_def counter_ext_def)
  have h2: "oid sentinel = None" by (simp add: sentinel_def)
  have r: "register_definitions (sample_toolkit 5) [hash_ext, counter_ext] empty_state =
     (True,
      [hash_ext\<lparr>method := \<lparr>ext_nid = 1000, it = Some ASN1_OCTET_STRING_it,
                  i2s = Some i2s_ASN1_OCTET_STRING, s2i = Some s2i_ASN1_OCTET_STRING\<rparr>\<rparr>,
       counter_ext\<lparr>method := \<lparr>ext_nid = 1001, it = Some ASN1_INTEGER_it,
                  i2s = Some i2s_ASN1_INTEGER, s2i = Some s2i_ASN1_INTEGER\<rparr>\<rparr>],
      \<lparr>added_objs = [(1000, ''1.2.3.4''), (1001, ''1.2.3.5'')],
       ext_list = [\<lparr>ext_nid = 1000, it = Some ASN1_OCTET_STRING_it,
                  i2s = Some i2s_ASN1_OCTET_STRING, s2i = Some s2i_ASN1_OCTET_STRING\<rparr>,
                 \<lparr>ext_nid = 1001, it = Some ASN1_INTEGER_it,
                  i2s = Some i2s_ASN1_INTEGER, s2i = Some s2i_ASN1_INTEGER\<rparr>]\<rparr>)"
    by (simp add: register_definition_def attach_methods_def integer_methods_def
          octet_string_methods_def sample_toolkit_def empty_state_def hash_ext_def
          counter_ext_def V_ASN1_OCTET_STRING_def V_ASN1_INTEGER_def)
  show ?thesis
    using ext_init_stops_at_sentinel [OF h1 h2, of "sample_toolkit 5" "[other_ext]" empty_state]
    unfolding r by simp
qed

text \<open>
  Claim C3 as stated fails for the empty identifier: an entry whose
  \<^verbatim>\<open>oid\<close> is the empty string does not end the table.  It is handed to
  the toolkit, a method table is registered for it, and the entry after it is
  interned and registered.
\<close>

theorem ext_init_empty_oid_not_sentinel:
  "oid empty_oid_ext = Some []
   \<and> ext_init (sample_toolkit 5) [empty_oid_ext, counter_ext, sentinel] empty_state =
     (Returns 0,
      [empty_oid_ext\<lparr>method := \<lparr>ext_nid = 0, it = Some ASN1_OCTET_STRING_it,
                  i2s = Some i2s_ASN1_OCTET_STRING, s2i = Some s2i_ASN1_OCTET_STRING\<rparr>\<rparr>,
       counter_ext\<lparr>method := \<lparr>ext_nid = 1000, it = Some ASN1_INTEGER_it,
                  i2s = Some i2s_ASN1_INTEGER, s2i = Some s2i_ASN1_INTEGER\<rparr>\<rparr>,
       sentinel],
      \<lparr>added_objs = [(1000, ''1.2.3.5'')],
       ext_list = [\<lparr>ext_nid = 0, it = Some ASN1_OCTET_STRING_it,
                  i2s = Some i2s_ASN1_OCTET_STRING, s2i = Some s2i_ASN1_OCTET_STRING\<rparr>,
                 \<lparr>ext_nid = 1000, it = Some ASN1_INTEGER_it,
                  i2s = Some i2s_ASN1_INTEGER, s2i = Some s2i_ASN1_INTEGER\<rparr>]\<rparr>)"
  by (simp add: sample_toolkit_def empty_state_def empty_oid_ext_def counter_ext_def
        sentinel_def switch_type_def memset_method_def V_ASN1_OCTET_STRING_def
        V_ASN1_INTEGER_def)

section \<open>Registration failure, unsupported types and aliases\<close>

text \<open>
  Claim C2.  Let the entries \<open>pre\<close> be registered without failure, leaving
  the toolkit in state \<open>s1\<close>, and let the toolkit refuse the method table of
  the next entry \<open>e\<close> (\<^verbatim>\<open>X509V3_EXT_add\<close> returns 0).  Then ext\_init
  returns 1 at once: the entries after \<open>e\<close> are untouched, and the state it
  leaves is the one the refused call left, built on \<open>s1\<close>: nothing that the
  earlier entries registered is undone.
\<close>

theorem ext_init_registration_failure:
  assumes "\<forall>x\<in>set pre. oid x \<noteq> None"
    and "ext_init tk (pre @ [sentinel]) s = (Returns 0, l1, s1)"
    and "oid e = Some o_str" and "alias e = 0"
    and "OBJ_create tk o_str (sn e) (ln e) s1 = (nid, s2)"
    and "switch_type (type e) nid = Some m"
    and "X509V3_EXT_add tk m s2 = (0, s3)"
  shows "ext_init tk (pre @ e # post) s =
           (Returns 1, take (length pre) l1 @ e\<lparr>method := m\<rparr> # post, s3)"
proof -
  have "ext_init tk (e # post) s1 = (Returns 1, e\<lparr>method := m\<rparr> # post, s3)"
    using assms(3-7) by simp
  with ext_init_append [OF assms(1,2), of "e # post"] show ?thesis by simp
qed

theorem ext_init_registration_failure_witness:
  "ext_init (sample_toolkit 1) [hash_ext, counter_ext, other_ext, sentinel] empty_state =
     (Returns 1,
      [hash_ext\<lparr>method := \<lparr>ext_nid = 1000, it = Some ASN1_OCTET_STRING_it,
                  i2s = Some i2s_ASN1_OCTET_STRING, s2i = Some s2i_ASN1_OCTET_STRING\<rparr>\<rparr>,
       counter_ext\<lparr>method := \<lparr>ext_nid = 1001, it = Some ASN1_INTEGER_it,
                  i2s = Some i2s_ASN1_INTEGER, s2i = Some s2i_ASN1_INTEGER\<rparr>\<rparr>,
       other_ext, sentinel],
      \<lparr>added_objs = [(1000, ''1.2.3.4''), (1001, ''1.2.3.5'')],
       ext_list = [\<lparr>ext_nid = 1000, it = Some ASN1_OCTET_STRING_it,
                  i2s = Some i2s_ASN1_OCTET_STRING, s2i = Some s2i_ASN1_OCTET_STRING\<rparr>]\<rparr>)"
proof -
  let ?mh = "\<lparr>ext_nid = 1000, it = Some ASN1_OCTET_STRING_it,
               i2s = Some i2s_ASN1_OCTET_STRING, s2i = Some s2i_ASN1_OCTET_STRING\<rparr>"
  let ?mc = "\<lparr>ext_nid = 1001, it = Some ASN1_INTEGER_it,
               i2s = Some i2s_ASN1_INTEGER, s2i = Some s2i_ASN1_INTEGER\<rparr>"
  let ?s1 = "\<lparr>added_objs = [(1000, ''1.2.3.4'')], ext_list = [?mh]\<rparr>"
  let ?s2 = "\<lparr>added_objs = [(1000, ''1.2.3.4''), (1001, ''1.2.3.5'')], ext_list = [?mh]\<rparr>"
  have h1: "\<forall>x\<in>set [hash_ext]. oid x \<noteq> None" by (simp add: hash_ext_def)
  have h2: "ext_init (sample_toolkit 1) ([hash_ext] @ [sentinel]) empty_state =
      (Returns 0, [hash_ext\<lparr>method := ?mh\<rparr>, sentinel], ?s1)"
    by (simp add: sample_toolkit_def empty_state_def hash_ext_def sentinel_def switch_type_def
          memset_method_def V_ASN1_OCTET_STRING_def V_ASN1_INTEGER_def)
  have h3: "oid counter_ext = Some ''1.2.3.5''" and h4: "alias counter_ext = 0"
    by (simp_all add: counter_ext_def)
  have h5: "OBJ_create (sample_toolkit 1) ''1.2.3.5'' (sn counter_ext) (ln counter_ext) ?s1 =
      (1001, ?s2)"
    by (simp add: sample_toolkit_def)
  have h6: "switch_type (type counter_ext) 1001 = Some ?mc"
    by (simp add: counter_ext_def switch_type_def memset_method_def)
  have h7: "X509V3_EXT_add (sample_toolkit 1) ?mc ?s2 = (0, ?s2)"
    by (simp add: sample_toolkit_def)
  show ?thesis
    using ext_init_registration_failure [OF h1 h2 h3 h4 h5 h6 h7, of "[other_ext, sentinel]"]
    by simp
qed

text \<open>
  Claim C6.  An entry without alias whose type is neither
  \<open>V_ASN1_INTEGER\<close> nor \<open>V_ASN1_OCTET_STRING\<close> has its object identifier
  interned (\<^verbatim>\<open>OBJ_create\<close>) and its method table zeroed; no method table
  is registered for it, and the loop goes on with the rest of the table from
  the state that the interning left.
\<close>

theorem ext_init_skips_unsupported_type:
  assumes "\<forall>x\<in>set pre. oid x \<noteq> None"
    and "ext_init tk (pre @ [sentinel]) s = (Returns 0, l1, s1)"
    and "oid e = Some o_str" and "alias e = 0"
    and "type e \<noteq> V_ASN1_INTEGER" and "type e \<noteq> V_ASN1_OCTET_STRING"
    and "OBJ_create tk o_str (sn e) (ln e) s1 = (nid, s2)"
  shows "ext_init tk (pre @ e # rest) s =
           (case ext_init tk rest s2 of
              (r, l, s') \<Rightarrow> (r, take (length pre) l1 @ e\<lparr>method := memset_method\<rparr> # l, s'))"
proof -
  have "switch_type (type e) nid = None"
    using assms(5,6) by (simp add: switch_type_def)
  then have "ext_init tk (e # rest) s1 =
      next_entry (e\<lparr>method := memset_method\<rparr>) (ext_init tk rest s2)"
    using assms(3,4,7) by simp
  with ext_init_append [OF assms(1,2), of "e # rest"] show ?thesis
    by (simp add: next_entry_def split: prod.splits)
qed

theorem ext_init_skips_unsupported_type_witness:
  "ext_init (sample_toolkit 5) [hash_ext, other_ext, counter_ext, sentinel] empty_state =
     (Returns 0,
      [hash_ext\<lparr>method := \<lparr>ext_nid = 1000, it = Some ASN1_OCTET_STRING_it,
                  i2s = Some i2s_ASN1_OCTET_STRING, s2i = Some s2i_ASN1_OCTET_STRING\<rparr>\<rparr>,
       other_ext,
       counter_ext\<lparr>method := \<lparr>ext_nid = 1002, it = Some ASN1_INTEGER_it,
                  i2s = Some i2s_ASN1_INTEGER, s2i = Some s2i_ASN1_INTEGER\<rparr>\<rparr>,
       sentinel],
      \<lparr>added_objs = [(1000, ''1.2.3.4''), (1001, ''1.2.3.6''), (1002, ''1.2.3.5'')],
       ext_list = [\<lparr>ext_nid = 1000, it = Some ASN1_OCTET_STRING_it,
                  i2s = Some i2s_ASN1_OCTET_STRING, s2i = Some s2i_ASN1_OCTET_STRING\<rparr>,
                 \<lparr>ext_nid = 1002, it = Some ASN1_INTEGER_it,
                  i2s = Some i2s_ASN1_INTEGER, s2i = Some s2i_ASN1_INTEGER\<rparr>]\<rparr>)"
proof -
  let ?mh = "\<lparr>ext_nid = 1000, it = Some ASN1_OCTET_STRING_it,
               i2s = Some i2s_ASN1_OCTET_STRING, s2i = Some s2i_ASN1_OCTET_STRING\<rparr>"
  let ?s1 = "\<lparr>added_objs = [(1000, ''1.2.3.4'')], ext_list = [?mh]\<rparr>"
  let ?s2 = "\<lparr>added_objs = [(1000, ''1.2.3.4''), (1001, ''1.2.3.6'')], ext_list = [?mh]\<rparr>"
  have h1: "\<forall>x\<in>set [hash_ext]. oid x \<noteq> None" by (simp add: hash_ext_def)
  have h2: "ext_init (sample_toolkit 5) ([hash_ext] @ [sentinel]) empty_state =
      (Returns 0, [hash_ext\<lparr>method := ?mh\<rparr>, sentinel], ?s1)"
    by (simp add: sample_toolkit_def empty_state_def hash_ext_def sentinel_def switch_type_def
          memset_method_def V_ASN1_OCTET_STRING_def V_ASN1_INTEGER_def)
  have h3: "oid other_ext = Some ''1.2.3.6''" and h4: "alias other_ext = 0"
    and h5: "type other_ext \<noteq> V_ASN1_INTEGER"
    and h6: "type other_ext \<noteq> V_ASN1_OCTET_STRING"
    by (simp_all add: other_ext_def V_ASN1_INTEGER_def V_ASN1_OCTET_STRING_def)
  have h7: "OBJ_create (sample_toolkit 5) ''1.2.3.6'' (sn other_ext) (ln other_ext) ?s1 =
      (1001, ?s2)"
    by (simp add: sample_toolkit_def)
  have r: "ext_init (sample_toolkit 5) [counter_ext, sentinel] ?s2 =
      (Returns 0,
       [counter_ext\<lparr>method := \<lparr>ext_nid = 1002, it = Some ASN1_INTEGER_it,
                  i2s = Some i2s_ASN1_INTEGER, s2i = Some s2i_ASN1_INTEGER\<rparr>\<rparr>, sentinel],
       \<lparr>added_objs = [(1000, ''1.2.3.4''), (1001, ''1.2.3.6''), (1002, ''1.2.3.5'')],
        ext_list = [?mh, \<lparr>ext_nid = 1002, it = Some ASN1_INTEGER_it,
                  i2s = Some i2s_ASN1_INTEGER, s2i = Some s2i_ASN1_INTEGER\<rparr>]\<rparr>)"
    by (simp add: sample_toolkit_def counter_ext_def sentinel_def switch_type_def
          memset_method_def V_ASN1_OCTET_STRING_def V_ASN1_INTEGER_def)
  have m: "other_ext\<lparr>method := memset_method\<rparr> = other_ext"
    by (simp add: other_ext_def)
  show ?thesis
    using ext_init_skips_unsupported_type [OF h1 h2 h3 h4 h5 h6 h7, of "[counter_ext, sentinel]"]
    unfolding r m by simp
qed

text \<open>
  Claim C10.  For an entry with an alias, whatever \<^verbatim>\<open>X509V3_EXT_add_alias\<close>
  returns (\<open>ret\<close> is arbitrary, 0 is its failure), ext\_init goes on with
  the rest of the table, and returns 0 when the terminator follows.
\<close>

theorem ext_init_ignores_alias_result:
  assumes "\<forall>x\<in>set pre. oid x \<noteq> None"
    and "ext_init tk (pre @ [sentinel]) s = (Returns 0, l1, s1)"
    and "oid e = Some o_str" and "alias e \<noteq> 0"
    and "OBJ_create tk o_str (sn e) (ln e) s1 = (nid, s2)"
    and "X509V3_EXT_add_alias tk nid (alias e) s2 = (ret, s3)"
  shows "ext_init tk (pre @ e # rest) s =
           (case ext_init tk rest s3 of (r, l, s') \<Rightarrow> (r, take (length pre) l1 @ e # l, s'))
         \<and> ext_init tk (pre @ e # sentinel # post) s =
             (Returns 0, take (length pre) l1 @ e # sentinel # post, s3)"
proof -
  have step: "ext_init tk (e # xs) s1 = next_entry e (ext_init tk xs s3)" for xs
    using assms(3-6) by simp
  have a: "ext_init tk (pre @ e # rest) s =
      (case ext_init tk rest s3 of (r, l, s') \<Rightarrow> (r, take (length pre) l1 @ e # l, s'))"
    using ext_init_append [OF assms(1,2), of "e # rest"] step [of rest]
    by (simp add: next_entry_def split: prod.splits)
  have "ext_init tk (sentinel # post) s3 = (Returns 0, sentinel # post, s3)"
    by (simp add: sentinel_def)
  then have b: "ext_init tk (pre @ e # sentinel # post) s =
      (Returns 0, take (length pre) l1 @ e # sentinel # post, s3)"
    using ext_init_append [OF assms(1,2), of "e # sentinel # post"] step [of "sentinel # post"]
    by simp
  from a b show ?thesis by simp
qed

theorem ext_init_ignores_alias_result_witness:
  "X509V3_EXT_add_alias (sample_toolkit 5) 1001 85
      \<lparr>added_objs = [(1000, ''1.2.3.4''), (1001, ''1.2.3.7'')],
       ext_list = [\<lparr>ext_nid = 1000, it = Some ASN1_OCTET_STRING_it,
                  i2s = Some i2s_ASN1_OCTET_STRING, s2i = Some s2i_ASN1_OCTET_STRING\<rparr>]\<rparr> =
     (0, \<lparr>added_objs = [(1000, ''1.2.3.4''), (1001, ''1.2.3.7'')],
       ext_list = [\<lparr>ext_nid = 1000, it = Some ASN1_OCTET_STRING_it,
                  i2s = Some i2s_ASN1_OCTET_STRING, s2i = Some s2i_ASN1_OCTET_STRING\<rparr>]\<rparr>)
   \<and> ext_init (sample_toolkit 5) [hash_ext, alias_ext, sentinel, counter_ext] empty_state =
     (Returns 0,
      [hash_ext\<lparr>method := \<lparr>ext_nid = 1000, it = Some ASN1_OCTET_STRING_it,
                  i2s = Some i2s_ASN1_OCTET_STRING, s2i = Some s2i_ASN1_OCTET_STRING\<rparr>\<rparr>,
       alias_ext, sentinel, counter_ext],
      \<lparr>added_objs = [(1000, ''1.2.3.4''), (1001, ''1.2.3.7'')],
       ext_list = [\<lparr>ext_nid = 1000, it = Some ASN1_OCTET_STRING_it,
                  i2s = Some i2s_ASN1_OCTET_STRING, s2i = Some s2i_ASN1_OCTET_STRING\<rparr>]\<rparr>)"
proof -
  let ?mh = "\<lparr>ext_nid = 1000, it = Some ASN1_OCTET_STRING_it,
               i2s = Some i2s_ASN1_OCTET_STRING, s2i = Some s2i_ASN1_OCTET_STRING\<rparr>"
  let ?s1 = "\<lparr>added_objs = [(1000, ''1.2.3.4'')], ext_list = [?mh]\<rparr>"
  let ?s2 = "\<lparr>added_objs = [(1000, ''1.2.3.4''), (1001, ''1.2.3.7'')], ext_list = [?mh]\<rparr>"
  have h1: "\<forall>x\<in>set [hash_ext]. oid x \<noteq> None" by (simp add: hash_ext_def)
  have h2: "ext_init (sample_toolkit 5) ([hash_ext] @ [sentinel]) empty_state =
      (Returns 0, [hash_ext\<lparr>method := ?mh\<rparr>, sentinel], ?s1)"
    by (simp add: sample_toolkit_def empty_state_def hash_ext_def sentinel_def switch_type_def
          memset_method_def V_ASN1_OCTET_STRING_def V_ASN1_INTEGER_def)
  have h3: "oid alias_ext = Some ''1.2.3.7''" and h4: "alias alias_ext \<noteq> 0"
    by (simp_all add: alias_ext_def)
  have h5: "OBJ_create (sample_toolkit 5) ''1.2.3.7'' (sn alias_ext) (ln alias_ext) ?s1 =
      (1001, ?s2)"
    by (simp add: sample_toolkit_def)
  have h6: "X509V3_EXT_add_alias (sample_toolkit 5) 1001 (alias alias_ext) ?s2 = (0, ?s2)"
    by (simp add: sample_toolkit_def alias_ext_def)
  have h6': "X509V3_EXT_add_alias (sample_toolkit 5) 1001 85 ?s2 = (0, ?s2)"
    using h6 by (simp add: alias_ext_def)
  show ?thesis
    using ext_init_ignores_alias_result [OF h1 h2 h3 h4 h5 h6, of "[]" "[counter_ext]"] h6'
    by simp
qed

section \<open>The hash extension\<close>

lemma size_t_to_int_small: "n < 2 ^ 31 \<Longrightarrow> size_t_to_int n = int n"
  by (simp add: size_t_to_int_def signed_of_nat signed_take_bit_int_eq_self)

lemma ASN1_OCTET_STRING_set_all:
  "int (length d) \<le> INT_MAX - 1 \<Longrightarrow>
   ASN1_OCTET_STRING_set str (Some d) (int (length d)) = Returns (1, d)"
  by (simp add: ASN1_OCTET_STRING_set_def)

lemma ext_new_all:
  "OBJ_nid2obj tk s nid = Some obj \<Longrightarrow> int (length p) \<le> INT_MAX - 1 \<Longrightarrow>
   ext_new tk nid crit (Some p) (int (length p)) s =
     (Returns (Some \<lparr>object = obj, critical = (crit \<noteq> 0), value = p\<rparr>), s)"
  by (simp add: ext_new_def ASN1_OCTET_STRING_set_all X509_EXTENSION_create_by_NID_def)

lemma ext_new_null:
  "OBJ_nid2obj tk s nid = Some obj \<Longrightarrow>
   ext_new tk nid crit None (- 1) s =
     (Returns (Some \<lparr>object = obj, critical = (crit \<noteq> 0), value = []\<rparr>), s)"
  by (simp add: ext_new_def ASN1_OCTET_STRING_set_def X509_EXTENSION_create_by_NID_def)

lemma ext_new_state: "snd (ext_new tk nid crit p len s) = s"
  by (simp add: ext_new_def split: outcome.splits prod.splits)

lemma length_be_bytes_gt: "256 ^ k \<le> n \<Longrightarrow> k < length (be_bytes n)"
proof (induction k arbitrary: n)
  case 0
  then show ?case using length_be_bytes_pos [of n] by simp
next
  case (Suc k)
  then have "256 ^ k \<le> n div 256" by (simp add: less_eq_div_iff_mult_less_eq mult.commute)
  moreover have "0 < n" using Suc.prems by (cases "n = 0") simp_all
  ultimately show ?case
    using Suc.IH [of "n div 256"] by (subst be_bytes.simps) simp
qed

lemma ASN1_object_size_fits:
  "n \<le> 2147483640 \<Longrightarrow>
   ASN1_object_size n = 1 + int (length (ASN1_put_length n)) + int n"
  using length_put_length [of n] by (simp add: ASN1_object_size_def INT_MAX_def Let_def)

lemma ASN1_object_size_too_large:
  assumes "2147483641 \<le> n"
  shows "ASN1_object_size n = - 1"
proof -
  have "256 ^ 3 \<le> n" using assms by simp
  from length_be_bytes_gt [OF this] have "5 \<le> length (ASN1_put_length n)"
    using assms by (simp add: ASN1_put_length_def)
  with assms show ?thesis
    by (simp add: ASN1_object_size_def INT_MAX_def Let_def)
qed

lemma i2d_fits:
  assumes "length content \<le> 2147483640"
  shows "i2d tag content =
     (int (length (tag # ASN1_put_length (length content) @ content)),
      Some (tag # ASN1_put_length (length content) @ content))"
  using ASN1_object_size_fits [OF assms] by (simp add: i2d_def)

lemma i2d_too_large: "2147483641 \<le> length content \<Longrightarrow> i2d tag content = (- 1, None)"
  by (simp add: i2d_def ASN1_object_size_too_large)

lemma i2d_length_bound:
  assumes "length content \<le> 2147483640"
  shows "int (length (tag # ASN1_put_length (length content) @ content)) \<le> INT_MAX - 1"
  using d2i_i2d [OF i2d_fits [OF assms], of tag "[]"] by blast

lemma ext_new_hash_value:
  assumes "length d \<le> 2147483640" and "OBJ_nid2obj tk s nid = Some obj"
  shows "ext_new_hash tk nid crit d (length d) s =
     (Returns (Some \<lparr>object = obj, critical = (crit \<noteq> 0),
        value = V_ASN1_OCTET_STRING_tag # ASN1_put_length (length d) @ d\<rparr>), s)"
proof -
  have a: "size_t_to_int (length d) = int (length d)"
    using assms(1) by (simp add: size_t_to_int_small)
  have b: "ASN1_OCTET_STRING_set [] (Some d) (int (length d)) = Returns (1, d)"
    using assms(1) by (intro ASN1_OCTET_STRING_set_all) (simp add: INT_MAX_def)
  show ?thesis
    unfolding ext_new_hash_def i2d_ASN1_OCTET_STRING_def a b
    by (simp add: i2d_fits [OF assms(1)] ext_new_all [OF assms(2) i2d_length_bound [OF assms(1)]]
          del: length_append list.size)
qed

lemma ext_new_hash_encoder_fails:
  assumes "2147483641 \<le> length d" and "length d \<le> 2147483646"
    and "OBJ_nid2obj tk s nid = Some obj"
  shows "ext_new_hash tk nid crit d (length d) s =
     (Returns (Some \<lparr>object = obj, critical = (crit \<noteq> 0), value = []\<rparr>), s)"
proof -
  have a: "size_t_to_int (length d) = int (length d)"
    using assms(2) by (simp add: size_t_to_int_small)
  have b: "ASN1_OCTET_STRING_set [] (Some d) (int (length d)) = Returns (1, d)"
    using assms(2) by (intro ASN1_OCTET_STRING_set_all) (simp add: INT_MAX_def)
  show ?thesis
    unfolding ext_new_hash_def i2d_ASN1_OCTET_STRING_def a b
    by (simp add: i2d_too_large [OF assms(1)] ext_new_null [OF assms(3)])
qed

lemma i2d_empty: "i2d_ASN1_OCTET_STRING [] = (2, Some [4, 0])"
  by (simp add: i2d_ASN1_OCTET_STRING_def i2d_def ASN1_object_size_def
        V_ASN1_OCTET_STRING_tag_def ASN1_put_length_def INT_MAX_def)

lemma ext_new_hash_narrowed:
  assumes "length d = 4294967296" and "OBJ_nid2obj tk s nid = Some obj"
  shows "ext_new_hash tk nid crit d (length d) s =
     (Returns (Some \<lparr>object = obj, critical = (crit \<noteq> 0), value = [4, 0]\<rparr>), s)"
proof -
  have a: "size_t_to_int (length d) = 0"
    unfolding assms(1) by (simp add: size_t_to_int_def)
  have b: "ASN1_OCTET_STRING_set [] (Some d) 0 = Returns (1, [])"
    by (simp add: ASN1_OCTET_STRING_set_def INT_MAX_def)
  have c: "ext_new tk nid crit (Some [4, 0]) 2 s =
     (Returns (Some \<lparr>object = obj, critical = (crit \<noteq> 0), value = [4, 0]\<rparr>), s)"
    using ext_new_all [OF assms(2), of "[4, 0]" crit] by (simp add: INT_MAX_def)
  show ?thesis
    unfolding ext_new_hash_def a b by (simp add: i2d_empty c)
qed

lemma d2i_octet_string:
  assumes "length d \<le> 2147483640"
  shows "d2i_ASN1_OCTET_STRING (V_ASN1_OCTET_STRING_tag # ASN1_put_length (length d) @ d) = Some (d, [])"
  using d2i_i2d [OF i2d_fits [OF assms], of V_ASN1_OCTET_STRING_tag "[]"]
  by (simp add: d2i_ASN1_OCTET_STRING_def)

text \<open>
  Claim C4, on the code.  For an extension identifier the toolkit knows and a
  digest of at most \<open>2^31 - 8\<close> bytes, ext\_new\_hash returns a record whose
  value decodes, as a DER octet string, to the digest with nothing left over,
  and two such digests with the same result are equal.  A longer digest still
  gives a record and no failure: from \<open>2^31 - 7\<close> to \<open>2^31 - 2\<close> bytes the
  toolkit's encoder returns -1 and no bytes, which ext\_new\_hash passes on,
  and the value is empty; a digest of \<open>2^32\<close> bytes has its length narrowed
  to 0 and is encoded as the empty octet string.
\<close>

theorem ext_new_hash_result:
  assumes "OBJ_nid2obj tk s nid = Some obj"
  shows "(length d \<le> 2147483640 \<longrightarrow>
            (\<exists>ex. ext_new_hash tk nid crit d (length d) s = (Returns (Some ex), s)
               \<and> object ex = obj \<and> critical ex = (crit \<noteq> 0)
               \<and> d2i_ASN1_OCTET_STRING (value ex) = Some (d, [])))
         \<and> (length d \<le> 2147483640 \<and> length d' \<le> 2147483640
              \<and> ext_new_hash tk nid crit d' (length d') s = ext_new_hash tk nid crit d (length d) s
              \<longrightarrow> d' = d)
         \<and> (2147483641 \<le> length d \<and> length d \<le> 2147483646 \<longrightarrow>
              ext_new_hash tk nid crit d (length d) s =
                (Returns (Some \<lparr>object = obj, critical = (crit \<noteq> 0), value = []\<rparr>), s))
         \<and> (length d = 4294967296 \<longrightarrow>
              ext_new_hash tk nid crit d (length d) s =
                (Returns (Some \<lparr>object = obj, critical = (crit \<noteq> 0), value = [4, 0]\<rparr>), s))"
proof -
  have 1: "\<exists>ex. ext_new_hash tk nid crit d (length d) s = (Returns (Some ex), s)
               \<and> object ex = obj \<and> critical ex = (crit \<noteq> 0)
               \<and> d2i_ASN1_OCTET_STRING (value ex) = Some (d, [])"
    if "length d \<le> 2147483640"
    using ext_new_hash_value [OF that assms, of crit] d2i_octet_string [OF that] by simp
  have 2: "d' = d"
    if a: "length d \<le> 2147483640" and b: "length d' \<le> 2147483640"
      and e: "ext_new_hash tk nid crit d' (length d') s = ext_new_hash tk nid crit d (length d) s"
  proof -
    from e ext_new_hash_value [OF a assms, of crit] ext_new_hash_value [OF b assms, of crit]
    have "V_ASN1_OCTET_STRING_tag # ASN1_put_length (length d') @ d'
        = V_ASN1_OCTET_STRING_tag # ASN1_put_length (length d) @ d"
      by simp
    with d2i_octet_string [OF a] d2i_octet_string [OF b] show ?thesis by simp
  qed
  have 3: "ext_new_hash tk nid crit d (length d) s =
      (Returns (Some \<lparr>object = obj, critical = (crit \<noteq> 0), value = []\<rparr>), s)"
    if "2147483641 \<le> length d" and "length d \<le> 2147483646"
    using that assms by (rule ext_new_hash_encoder_fails)
  have 4: "ext_new_hash tk nid crit d (length d) s =
      (Returns (Some \<lparr>object = obj, critical = (crit \<noteq> 0), value = [4, 0]\<rparr>), s)"
    if "length d = 4294967296"
    using that assms by (rule ext_new_hash_narrowed)
  from 1 2 3 4 show ?thesis by blast
qed

theorem ext_new_hash_result_witness:
  "ext_new_hash (sample_toolkit 5) 1000 1 (replicate 4294967296 0) 4294967296
       \<lparr>added_objs = [(1000, ''1.2.3.4'')], ext_list = []\<rparr> =
     (Returns (Some \<lparr>object = ''1.2.3.4'', critical = True, value = [4, 0]\<rparr>),
      \<lparr>added_objs = [(1000, ''1.2.3.4'')], ext_list = []\<rparr>)
   \<and> d2i_ASN1_OCTET_STRING [4, 0] = Some ([], [])
   \<and> replicate 4294967296 (0::byte) \<noteq> []
   \<and> ext_new_hash (sample_toolkit 5) 1000 1 [] 0
       \<lparr>added_objs = [(1000, ''1.2.3.4'')], ext_list = []\<rparr> =
     (Returns (Some \<lparr>object = ''1.2.3.4'', critical = True, value = [4, 0]\<rparr>),
      \<lparr>added_objs = [(1000, ''1.2.3.4'')], ext_list = []\<rparr>)
   \<and> ext_new_hash (sample_toolkit 5) 1000 1 (replicate 2147483641 171) 2147483641
       \<lparr>added_objs = [(1000, ''1.2.3.4'')], ext_list = []\<rparr> =
     (Returns (Some \<lparr>object = ''1.2.3.4'', critical = True, value = []\<rparr>),
      \<lparr>added_objs = [(1000, ''1.2.3.4'')], ext_list = []\<rparr>)
   \<and> d2i_ASN1_OCTET_STRING [] = None
   \<and> ext_new_hash (sample_toolkit 5) 1000 1 (replicate 32 171) 32
       \<lparr>added_objs = [(1000, ''1.2.3.4'')], ext_list = []\<rparr> =
     (Returns (Some \<lparr>object = ''1.2.3.4'', critical = True, value = 4 # 32 # replicate 32 171\<rparr>),
      \<lparr>added_objs = [(1000, ''1.2.3.4'')], ext_list = []\<rparr>)
   \<and> d2i_ASN1_OCTET_STRING (4 # 32 # replicate 32 171) = Some (replicate 32 171, [])"
proof -
  let ?s = "\<lparr>added_objs = [(1000, ''1.2.3.4'')], ext_list = []\<rparr>"
  have h: "OBJ_nid2obj (sample_toolkit 5) ?s 1000 = Some ''1.2.3.4''"
    by (simp add: sample_toolkit_def)
  have d0: "d2i_ASN1_OCTET_STRING [4, 0] = Some ([], [])"
    by (simp add: d2i_ASN1_OCTET_STRING_def d2i_def V_ASN1_OCTET_STRING_tag_def
          ASN1_get_length_def)
  have d1: "d2i_ASN1_OCTET_STRING [] = None"
    by (simp add: d2i_ASN1_OCTET_STRING_def d2i_def)
  have e: "ext_new_hash (sample_toolkit 5) 1000 1 (replicate 32 171) 32 ?s =
     (Returns (Some \<lparr>object = ''1.2.3.4'', critical = True, value = 4 # 32 # replicate 32 171\<rparr>), ?s)"
    using ext_new_hash_value [OF _ h, of "replicate 32 171" 1]
    by (simp add: V_ASN1_OCTET_STRING_tag_def ASN1_put_length_def)
  have e0: "ext_new_hash (sample_toolkit 5) 1000 1 [] 0 ?s =
     (Returns (Some \<lparr>object = ''1.2.3.4'', critical = True, value = [4, 0]\<rparr>), ?s)"
    using ext_new_hash_value [OF _ h, of "[]" 1]
    by (simp add: V_ASN1_OCTET_STRING_tag_def ASN1_put_length_def)
  note r = ext_new_hash_result [OF h, of _ 1]
  from r [of "replicate 4294967296 0"] r [of "replicate 2147483641 171"]
    r [of "replicate 32 171"] d0 d1 e e0
  show ?thesis by auto
qed

section \<open>The content octets of a counter\<close>

lemma be_bytes_small: "0 < n \<Longrightarrow> n < 256 \<Longrightarrow> be_bytes n = [of_nat n]"
  by (subst be_bytes.simps) (simp add: be_bytes.simps [of 0])

lemma be_bytes_rec: "0 < n \<Longrightarrow> be_bytes n = be_bytes (n div 256) @ [of_nat (n mod 256)]"
  by (subst be_bytes.simps) simp

lemma hd_be_bytes_nonzero: "0 < n \<Longrightarrow> hd (be_bytes n) \<noteq> 0"
proof (induction n rule: be_bytes.induct)
  case (1 n)
  show ?case
  proof (cases "n < 256")
    case True
    have "unat (of_nat n :: byte) = n" using True by (rule unat_byte_of_nat)
    then have "(of_nat n :: byte) \<noteq> 0" using "1.prems" by auto
    then show ?thesis using True "1.prems" by (simp add: be_bytes_small)
  next
    case False
    then have p: "0 < n div 256" by simp
    then have "be_bytes (n div 256) \<noteq> []" using length_be_bytes_pos [OF p] by auto
    then have "hd (be_bytes n) = hd (be_bytes (n div 256))"
      using "1.prems" by (simp add: be_bytes_rec [of n])
    with "1.IH" p "1.prems" show ?thesis by simp
  qed
qed

lemma twos_complement_zero: "twos_complement 0 = [0]"
  by (subst twos_complement.simps) simp

lemma twos_complement_nonneg:
  "0 < v \<Longrightarrow> twos_complement v = pad_sign (be_bytes (nat v))"
proof (induction v rule: twos_complement.induct)
  case (1 v)
  have nv: "(of_nat (nat v) :: byte) = of_int v" using "1.prems" by simp
  show ?case
  proof (cases "v < 128")
    case True
    have "unat (of_nat (nat v) :: byte) = nat v"
      using True "1.prems" by (intro unat_byte_of_nat) simp
    then have "\<not> 128 \<le> (of_nat (nat v) :: byte)"
      using True by (simp add: word_le_nat_alt)
    moreover have "twos_complement v = [of_int v]"
      using True "1.prems" by (subst twos_complement.simps) simp
    moreover have "be_bytes (nat v) = [of_nat (nat v)]"
      using True "1.prems" by (intro be_bytes_small) simp_all
    ultimately show ?thesis by (simp add: pad_sign_def nv)
  next
    case False
    have u: "twos_complement v = twos_complement (v div 256) @ [of_int (v mod 256)]"
      using False by (subst twos_complement.simps) auto
    have b: "be_bytes (nat v) = be_bytes (nat (v div 256)) @ [of_int (v mod 256)]"
    proof -
      have dv: "nat v div 256 = nat (v div 256)" by (simp add: nat_div_distrib)
      have "nat v mod 256 = nat (v mod 256)"
        using "1.prems" by (simp add: nat_mod_distrib)
      then have "(of_nat (nat v mod 256) :: byte) = of_nat (nat (v mod 256))"
        by (rule arg_cong)
      moreover have "0 \<le> v mod 256" by simp
      then have "(of_nat (nat (v mod 256)) :: byte) = of_int (v mod 256)"
        by (rule of_nat_nat)
      ultimately have "(of_nat (nat v mod 256) :: byte) = of_int (v mod 256)"
        by (rule trans)
      with dv show ?thesis using "1.prems" by (simp add: be_bytes_rec [of "nat v"])
    qed
    show ?thesis
    proof (cases "v < 256")
      case True
      then have d: "v div 256 = 0" and m: "v mod 256 = v" using "1.prems" by simp_all
      have "unat (of_nat (nat v) :: byte) = nat v"
        using True "1.prems" by (intro unat_byte_of_nat) simp
      then have "128 \<le> (of_nat (nat v) :: byte)"
        using False by (simp add: word_le_nat_alt)
      then show ?thesis
        unfolding u b d m by (simp add: twos_complement_zero be_bytes.simps [of 0] pad_sign_def nv)
    next
      case False
      then have p: "0 < v div 256" by simp
      then have ne: "be_bytes (nat (v div 256)) \<noteq> []"
        using length_be_bytes_pos [of "nat (v div 256)"] by auto
      from "1.IH" \<open>\<not> v < 128\<close> p
      have "twos_complement (v div 256) = pad_sign (be_bytes (nat (v div 256)))" by simp
      then show ?thesis
        unfolding u b using ne by (simp add: pad_sign_def)
    qed
  qed
qed

text \<open>The encoders on some values, among them the boundary cases of a 32-bit counter.\<close>

lemma twos_complement_examples:
  "twos_complement 0 = [0]"
  "twos_complement 1 = [1]"
  "twos_complement 127 = [127]"
  "twos_complement 128 = [0, 128]"
  "twos_complement 256 = [1, 0]"
  "twos_complement 16777216 = [1, 0, 0, 0]"
  "twos_complement 2147483647 = [127, 255, 255, 255]"
  "twos_complement (- 1) = [255]"
  "twos_complement (- 128) = [128]"
  "twos_complement (- 2147483648) = [128, 0, 0, 0]"
  by code_simp+

lemma i2d_examples:
  "i2d_ASN1_INTEGER 16777216 = (6, Some [2, 4, 1, 0, 0, 0])"
  "i2d_ASN1_OCTET_STRING [171, 205] = (4, Some [4, 2, 171, 205])"
  "d2i_ASN1_INTEGER [2, 4, 1, 0, 0, 0] = Some (16777216, [])"
  by code_simp+

section \<open>The counter extension\<close>

lemma length_twos_complement_sint: "length (twos_complement (sint (v :: 32 word))) \<le> 4"
  using sint_ge [of v] sint_lt [of v] length_twos_complement_le [of 4 "sint v"] by simp

lemma ext_new_nvcounter_value:
  assumes "OBJ_nid2obj tk s nid = Some obj"
  shows "ext_new_nvcounter tk nid crit v s =
     (Returns (Some \<lparr>object = obj, critical = (crit \<noteq> 0),
        value = V_ASN1_INTEGER_tag # ASN1_put_length (length (twos_complement (sint v)))
                  @ twos_complement (sint v)\<rparr>), s)"
proof -
  have l: "length (twos_complement (sint v)) \<le> 2147483640"
    using length_twos_complement_sint [of v] by simp
  show ?thesis
    unfolding ext_new_nvcounter_def i2d_ASN1_INTEGER_def ASN1_INTEGER_set_def
    by (simp add: i2d_fits [OF l] ext_new_all [OF assms i2d_length_bound [OF l]]
          del: length_append list.size)
qed

lemma d2i_integer:
  "d2i V_ASN1_INTEGER_tag (V_ASN1_INTEGER_tag # ASN1_put_length (length (twos_complement (sint (v :: 32 word))))
       @ twos_complement (sint v)) = Some (twos_complement (sint v), [])"
proof -
  have l: "length (twos_complement (sint v)) \<le> 2147483640"
    using length_twos_complement_sint [of v] by simp
  from d2i_i2d [OF i2d_fits [OF l], of V_ASN1_INTEGER_tag "[]"] show ?thesis by simp
qed

lemma d2i_ASN1_INTEGER_value:
  "d2i_ASN1_INTEGER (V_ASN1_INTEGER_tag # ASN1_put_length (length (twos_complement (sint (v :: 32 word))))
       @ twos_complement (sint v)) = Some (sint v, [])"
  unfolding d2i_ASN1_INTEGER_def d2i_integer
  by (simp add: twos_complement_ne twos_value_twos_complement)

text \<open>
  Claim C5.  For a counter that is not negative and an extension identifier the
  toolkit knows, ext\_new\_nvcounter returns a record whose value decodes, as
  a DER integer, to the counter.  Its content octets \<open>body\<close> are the
  shortest that stand for the counter in two's complement, and they are the
  octets of the magnitude (which start with a non-zero octet) with one zero
  octet in front exactly when the top bit of the first is set; zero is the
  single octet 0.
\<close>

theorem ext_new_nvcounter_roundtrip:
  assumes "0 \<le> sint v" and "OBJ_nid2obj tk s nid = Some obj"
  shows "\<exists>ex body. ext_new_nvcounter tk nid crit v s = (Returns (Some ex), s)
           \<and> object ex = obj \<and> critical ex = (crit \<noteq> 0)
           \<and> d2i_ASN1_INTEGER (value ex) = Some (sint v, [])
           \<and> d2i V_ASN1_INTEGER_tag (value ex) = Some (body, [])
           \<and> (\<forall>bs. bs \<noteq> [] \<and> twos_value bs = sint v \<longrightarrow> length body \<le> length bs)
           \<and> body = (if sint v = 0 then [0] else pad_sign (be_bytes (nat (sint v))))
           \<and> (sint v = 0 \<or> hd (be_bytes (nat (sint v))) \<noteq> 0)"
proof -
  let ?body = "twos_complement (sint v)"
  let ?der = "V_ASN1_INTEGER_tag # ASN1_put_length (length ?body) @ ?body"
  let ?ex = "\<lparr>object = obj, critical = (crit \<noteq> 0), value = ?der\<rparr>"
  have 1: "ext_new_nvcounter tk nid crit v s = (Returns (Some ?ex), s)"
    by (rule ext_new_nvcounter_value) fact
  have 2: "d2i_ASN1_INTEGER (value ?ex) = Some (sint v, [])"
    by (simp add: d2i_ASN1_INTEGER_value)
  have 3: "d2i V_ASN1_INTEGER_tag (value ?ex) = Some (?body, [])"
    by (simp add: d2i_integer)
  have 4: "\<forall>bs. bs \<noteq> [] \<and> twos_value bs = sint v \<longrightarrow> length ?body \<le> length bs"
    using twos_complement_minimal by blast
  have 5: "?body = (if sint v = 0 then [0] else pad_sign (be_bytes (nat (sint v))))"
    using assms(1) by (simp add: twos_complement_zero twos_complement_nonneg)
  have 6: "sint v = 0 \<or> hd (be_bytes (nat (sint v))) \<noteq> 0"
    using assms(1) hd_be_bytes_nonzero [of "nat (sint v)"] by auto
  have "ext_new_nvcounter tk nid crit v s = (Returns (Some ?ex), s)
           \<and> object ?ex = obj \<and> critical ?ex = (crit \<noteq> 0)
           \<and> d2i_ASN1_INTEGER (value ?ex) = Some (sint v, [])
           \<and> d2i V_ASN1_INTEGER_tag (value ?ex) = Some (?body, [])
           \<and> (\<forall>bs. bs \<noteq> [] \<and> twos_value bs = sint v \<longrightarrow> length ?body \<le> length bs)
           \<and> ?body = (if sint v = 0 then [0] else pad_sign (be_bytes (nat (sint v))))
           \<and> (sint v = 0 \<or> hd (be_bytes (nat (sint v))) \<noteq> 0)"
    using 1 2 3 4 5 6 by simp
  then show ?thesis by blast
qed

lemma twos_complement_255: "twos_complement 255 = [0, 255]"
  by (simp add: twos_complement.simps [of 255] twos_complement_zero)

theorem ext_new_nvcounter_roundtrip_witness:
  "ext_new_nvcounter (sample_toolkit 5) 1000 0 255
       \<lparr>added_objs = [(1000, ''1.2.3.5'')], ext_list = []\<rparr> =
     (Returns (Some \<lparr>object = ''1.2.3.5'', critical = False, value = [2, 2, 0, 255]\<rparr>),
      \<lparr>added_objs = [(1000, ''1.2.3.5'')], ext_list = []\<rparr>)
   \<and> d2i_ASN1_INTEGER [2, 2, 0, 255] = Some (255, [])
   \<and> d2i V_ASN1_INTEGER_tag [2, 2, 0, 255] = Some ([0, 255], [])
   \<and> twos_value [0, 0, 255] = 255
   \<and> length [0, 255 :: byte] \<le> length [0, 0, 255 :: byte]"
proof -
  let ?s = "\<lparr>added_objs = [(1000, ''1.2.3.5'')], ext_list = []\<rparr>"
  have h1: "0 \<le> sint (255 :: 32 word)" by simp
  have h2: "OBJ_nid2obj (sample_toolkit 5) ?s 1000 = Some ''1.2.3.5''"
    by (simp add: sample_toolkit_def)
  have e: "ext_new_nvcounter (sample_toolkit 5) 1000 0 255 ?s =
     (Returns (Some \<lparr>object = ''1.2.3.5'', critical = False, value = [2, 2, 0, 255]\<rparr>), ?s)"
    using ext_new_nvcounter_value [OF h2, of 0 255]
    by (simp add: twos_complement_255 V_ASN1_INTEGER_tag_def ASN1_put_length_def)
  have t: "twos_value [0, 0, 255] = 255"
    by (simp add: twos_value_def)
  have p: "pad_sign (be_bytes 255) = [0, 255]"
    using twos_complement_nonneg [of 255] by (simp add: twos_complement_255)
  from ext_new_nvcounter_roundtrip [OF h1 h2, of 0] e t p show ?thesis
    by auto
qed




section \<open>The key extension and the toolkit state\<close>

lemma ext_new_key_value:
  assumes "i2d_PUBKEY tk k = Some der" and "der \<noteq> []"
    and "OBJ_nid2obj tk s nid = Some obj"
  shows "ext_new_key tk nid crit k s =
     (Returns (Some \<lparr>object = obj, critical = (crit \<noteq> 0), value = take 4096 der\<rparr>), s)"
proof -
  have b: "i2d_PUBKEY_bio tk [] k = (1, der)"
    using assms(1,2) by (simp add: i2d_PUBKEY_bio_def)
  have r: "BIO_read der 4096 = (int (length (take 4096 der)), take 4096 der, drop 4096 der)"
    using assms(2) by (simp add: BIO_read_def)
  have l: "int (length (take 4096 der)) \<le> INT_MAX - 1"
    by (simp add: INT_MAX_def)
  show ?thesis
    by (simp add: ext_new_key_def b r ext_new_all [OF assms(3) l] del: length_take)
qed

text \<open>
  Claim C1, on the code.  For a key that the toolkit encodes, ext\_new\_key
  returns a record holding the first 4096 bytes of the encoding: the whole
  encoding when it has at most 4096 bytes, a truncated one when it has more.
  There is no failure for a key that is too large.
\<close>

theorem ext_new_key_truncates:
  assumes "i2d_PUBKEY tk k = Some der" and "der \<noteq> []"
    and "OBJ_nid2obj tk s nid = Some obj"
  shows "ext_new_key tk nid crit k s =
           (Returns (Some \<lparr>object = obj, critical = (crit \<noteq> 0), value = take 4096 der\<rparr>), s)
         \<and> (length der \<le> 4096 \<longrightarrow> take 4096 der = der)
         \<and> (4096 < length der \<longrightarrow> length (take 4096 der) = 4096 \<and> take 4096 der \<noteq> der)"
proof -
  have "take 4096 der \<noteq> der" if "4096 < length der"
  proof
    assume "take 4096 der = der"
    then have "length (take 4096 der) = length der" by simp
    with that show False by simp
  qed
  with ext_new_key_value [OF assms, of crit] show ?thesis by simp
qed

theorem ext_new_key_truncates_witness:
  "length (replicate 4097 (48 :: byte)) = 4097
   \<and> ext_new_key (sample_toolkit 5) 1000 0 (Some (replicate 4097 48))
       \<lparr>added_objs = [(1000, ''1.2.3.8'')], ext_list = []\<rparr> =
     (Returns (Some \<lparr>object = ''1.2.3.8'', critical = False, value = replicate 4096 48\<rparr>),
      \<lparr>added_objs = [(1000, ''1.2.3.8'')], ext_list = []\<rparr>)
   \<and> replicate 4096 (48 :: byte) \<noteq> replicate 4097 48"
proof -
  let ?s = "\<lparr>added_objs = [(1000, ''1.2.3.8'')], ext_list = []\<rparr>"
  have h1: "i2d_PUBKEY (sample_toolkit 5) (Some (replicate 4097 48)) = Some (replicate 4097 48)"
    by (simp add: sample_toolkit_def)
  have h2: "replicate 4097 (48 :: byte) \<noteq> []" by simp
  have h3: "OBJ_nid2obj (sample_toolkit 5) ?s 1000 = Some ''1.2.3.8''"
    by (simp add: sample_toolkit_def)
  from ext_new_key_truncates [OF h1 h2 h3, of 0] show ?thesis
    by simp
qed

text \<open>
  Claim C7.  When the toolkit cannot encode the key, ext\_new\_key returns
  \<^verbatim>\<open>NULL\<close>: no record, whatever the identifier and the flag.
\<close>

theorem ext_new_key_serialization_failure:
  assumes "i2d_PUBKEY tk k = None"
  shows "ext_new_key tk nid crit k s = (Returns None, s)"
  using assms by (simp add: ext_new_key_def i2d_PUBKEY_bio_def)

theorem ext_new_key_serialization_failure_witness:
  "ext_new_key (sample_toolkit 5) 1000 0 None
       \<lparr>added_objs = [(1000, ''1.2.3.8'')], ext_list = []\<rparr> =
     (Returns None, \<lparr>added_objs = [(1000, ''1.2.3.8'')], ext_list = []\<rparr>)"
proof -
  have h: "i2d_PUBKEY (sample_toolkit 5) None = None"
    by (simp add: sample_toolkit_def)
  from ext_new_key_serialization_failure [OF h] show ?thesis .
qed

lemma ext_new_reads_nid:
  "OBJ_nid2obj tk s' nid = OBJ_nid2obj tk s nid \<Longrightarrow>
   fst (ext_new tk nid crit p len s') = fst (ext_new tk nid crit p len s)"
  by (simp add: ext_new_def X509_EXTENSION_create_by_NID_def split: outcome.splits)

text \<open>
  Claim C9.  The three constructors leave the toolkit's state as it was, and
  the record they build depends on that state only through the object looked
  up for \<open>nid\<close>: two states that agree on it give the same result.
\<close>

theorem encoders_leave_registry:
  "snd (ext_new_hash tk nid crit buf len s) = s
   \<and> snd (ext_new_nvcounter tk nid crit v s) = s
   \<and> snd (ext_new_key tk nid crit k s) = s
   \<and> (OBJ_nid2obj tk s' nid = OBJ_nid2obj tk s nid \<longrightarrow>
        fst (ext_new_hash tk nid crit buf len s') = fst (ext_new_hash tk nid crit buf len s)
        \<and> fst (ext_new_nvcounter tk nid crit v s') = fst (ext_new_nvcounter tk nid crit v s)
        \<and> fst (ext_new_key tk nid crit k s') = fst (ext_new_key tk nid crit k s))"
proof -
  have a: "snd (ext_new_hash tk nid crit buf len s) = s"
    by (simp add: ext_new_hash_def ext_new_state split: outcome.splits prod.splits)
  have b: "snd (ext_new_nvcounter tk nid crit v s) = s"
    by (simp add: ext_new_nvcounter_def ext_new_state split: outcome.splits prod.splits)
  have c: "snd (ext_new_key tk nid crit k s) = s"
    by (simp add: ext_new_key_def ext_new_state split: prod.splits)
  have d: "fst (ext_new_hash tk nid crit buf len s') = fst (ext_new_hash tk nid crit buf len s)
        \<and> fst (ext_new_nvcounter tk nid crit v s') = fst (ext_new_nvcounter tk nid crit v s)
        \<and> fst (ext_new_key tk nid crit k s') = fst (ext_new_key tk nid crit k s)"
    if "OBJ_nid2obj tk s' nid = OBJ_nid2obj tk s nid"
    using ext_new_reads_nid [OF that]
    by (simp add: ext_new_hash_def ext_new_nvcounter_def ext_new_key_def
          split: outcome.splits prod.splits)
  from a b c d show ?thesis by blast
qed

theorem encoders_leave_registry_witness:
  "snd (ext_new_hash (sample_toolkit 5) 1000 1 (replicate 32 171) 32
         \<lparr>added_objs = [(1000, ''1.2.3.4'')], ext_list = [memset_method]\<rparr>) =
     \<lparr>added_objs = [(1000, ''1.2.3.4'')], ext_list = [memset_method]\<rparr>
   \<and> snd (ext_new_nvcounter (sample_toolkit 5) 1000 1 7
         \<lparr>added_objs = [(1000, ''1.2.3.4'')], ext_list = [memset_method]\<rparr>) =
     \<lparr>added_objs = [(1000, ''1.2.3.4'')], ext_list = [memset_method]\<rparr>
   \<and> snd (ext_new_key (sample_toolkit 5) 1000 1 (Some [48, 0])
         \<lparr>added_objs = [(1000, ''1.2.3.4'')], ext_list = [memset_method]\<rparr>) =
     \<lparr>added_objs = [(1000, ''1.2.3.4'')], ext_list = [memset_method]\<rparr>
   \<and> fst (ext_new_nvcounter (sample_toolkit 5) 1000 1 7
         \<lparr>added_objs = [(1000, ''1.2.3.4''), (1001, ''1.2.3.5'')], ext_list = []\<rparr>) =
     fst (ext_new_nvcounter (sample_toolkit 5) 1000 1 7
         \<lparr>added_objs = [(1000, ''1.2.3.4'')], ext_list = [memset_method]\<rparr>)"
proof -
  have h: "OBJ_nid2obj (sample_toolkit 5)
        \<lparr>added_objs = [(1000, ''1.2.3.4''), (1001, ''1.2.3.5'')], ext_list = []\<rparr> 1000 =
      OBJ_nid2obj (sample_toolkit 5)
        \<lparr>added_objs = [(1000, ''1.2.3.4'')], ext_list = [memset_method]\<rparr> 1000"
    by (simp add: sample_toolkit_def)
  from encoders_leave_registry [of "sample_toolkit 5" 1000 1 "replicate 32 171" 32
      "\<lparr>added_objs = [(1000, ''1.2.3.4'')], ext_list = [memset_method]\<rparr>" 7 "Some [48, 0]"
      "\<lparr>added_objs = [(1000, ''1.2.3.4''), (1001, ''1.2.3.5'')], ext_list = []\<rparr>"] h
  show ?thesis by blast
qed

end
